theory Spec2Isabelle
  imports Main
begin

section \<open>The usage counter: class \<open>Counter\<close>\<close>

text \<open>
  The Python class keeps two private attributes: \<open>_counter\<close>, an unbounded integer, and
  \<open>_zero\<close>, an \<open>asyncio.Event\<close>. Only the flag of the event is modelled (set or not set);
  the tasks waiting on it are outside the embedding. An attribute \<open>_x\<close> of the source
  is the field \<open>c_x\<close> here (and \<open>d_x\<close> for the second class), since an identifier
  cannot begin with an underscore.
\<close>

record Counter =
  c_counter :: int
  c_zero :: bool

text \<open>\<open>__init__\<close>: the counter starts at 0 and the event is created and set.\<close>

definition Counter_init :: Counter where
  "Counter_init = \<lparr>c_counter = 0, c_zero = True\<rparr>"

text \<open>\<open>increment\<close>: first \<open>self._zero.clear()\<close>, then \<open>self._counter += 1\<close>.\<close>

definition increment :: "Counter \<Rightarrow> Counter" where
  "increment self =
     (let s1 = self\<lparr>c_zero := False\<rparr>
      in s1\<lparr>c_counter := c_counter s1 + 1\<rparr>)"

text \<open>
  \<open>decrement\<close>: two consecutive \<open>if\<close> statements, the second one reading the counter
  the first one may have written.
\<close>

definition decrement :: "Counter \<Rightarrow> Counter" where
  "decrement self =
     (let s1 = (if c_counter self > 0 then self\<lparr>c_counter := c_counter self - 1\<rparr> else self)
      in (if c_counter s1 = 0 then s1\<lparr>c_zero := True\<rparr> else s1))"

text \<open>\<open>Counter.clear\<close>: the counter is set to zero and the event is set.\<close>

definition Counter_clear :: "Counter \<Rightarrow> Counter" where
  "Counter_clear self = (self\<lparr>c_counter := 0\<rparr>)\<lparr>c_zero := True\<rparr>"

definition is_zero :: "Counter \<Rightarrow> bool" where
  "is_zero self = (c_counter self = 0)"

text \<open>
  \<open>bump\<close> is a generator wrapped by \<open>contextlib.contextmanager\<close>:
  \<^verbatim>\<open>
      self.increment()
      yield
      self.decrement()
  \<close>
  Entering the \<open>with\<close> block runs the generator up to the \<open>yield\<close>. Leaving it normally
  resumes the generator, which runs \<open>decrement\<close> and finishes. Leaving it by an
  exception makes \<open>contextmanager\<close> throw that exception into the generator at the
  \<open>yield\<close>; the generator has no \<open>try\<close> around the \<open>yield\<close>, so the exception leaves the
  generator at once, the statement after the \<open>yield\<close> is not executed, and the same
  exception is raised again from the \<open>with\<close> statement.

  The argument of \<open>bump_exit\<close> is the exception of the block, if any; the result is
  the counter once the generator has been left.
\<close>

definition bump_enter :: "Counter \<Rightarrow> Counter" where
  "bump_enter self = increment self"

definition bump_exit :: "Counter \<Rightarrow> 'e option \<Rightarrow> Counter" where
  "bump_exit self exc =
     (case exc of
        None \<Rightarrow> decrement self
      | Some e \<Rightarrow> self)"

text \<open>
  The statement \<open>with c.bump(): body\<close>. The body is any computation on the counter
  that either returns a result (\<open>Inr\<close>) or raises (\<open>Inl\<close>); an exception of the body
  leaves the statement after the exit step.
\<close>

definition bump :: "Counter \<Rightarrow> (Counter \<Rightarrow> ('e + 'r) \<times> Counter) \<Rightarrow> ('e + 'r) \<times> Counter" where
  "bump self body =
     (let s1 = bump_enter self
      in (case body s1 of
            (Inr r, s2) \<Rightarrow> (Inr r, bump_exit s2 (None :: 'e option))
          | (Inl e, s2) \<Rightarrow> (Inl e, bump_exit s2 (Some e))))"

text \<open>Sequences of calls of the three mutating methods on one counter.\<close>

datatype counter_op = Increment | Decrement | Clear

fun counter_step :: "Counter \<Rightarrow> counter_op \<Rightarrow> Counter" where
  "counter_step c Increment = increment c"
| "counter_step c Decrement = decrement c"
| "counter_step c Clear = Counter_clear c"

definition counter_run :: "counter_op list \<Rightarrow> Counter" where
  "counter_run ops = foldl counter_step Counter_init ops"

text \<open>The two facts every call keeps: the count is not negative, and the event mirrors it.\<close>

definition counter_inv :: "Counter \<Rightarrow> bool" where
  "counter_inv c = (0 \<le> c_counter c \<and> c_zero c = (c_counter c = 0))"


section \<open>The slot: class \<open>DelayedClear\<close>\<close>

text \<open>
  A Python value is either \<open>None\<close> or some other object. The constructor tests its
  argument against \<open>None\<close>, so the distinction is part of the model.
\<close>

datatype 'a pyval = PyNone | PyObj 'a

text \<open>
  Exceptions: \<open>AttributeError\<close> is what reading a missing attribute raises.
  \<open>StopIteration\<close> (the class and its subclasses) and \<open>RuntimeError\<close> are set apart
  because a generator treats them specially, see \<open>generator_raise\<close> below. Every
  other exception (of the factory, of the body of a \<open>with\<close> block) is \<open>Raised e\<close>.
\<close>

datatype 'e exn = AttributeError | StopIteration | RuntimeError | Raised 'e

text \<open>
  An exception that leaves the frame of a generator goes to the caller of the
  generator as it is, except \<open>StopIteration\<close>: the interpreter replaces it by
  \<open>RuntimeError("generator raised StopIteration")\<close>, with the original as its cause.
\<close>

definition generator_raise :: "'e exn \<Rightarrow> 'e exn" where
  "generator_raise e = (if e = StopIteration then RuntimeError else e)"

text \<open>
  \<open>datetime.now()\<close> has microsecond resolution; a reading of the clock is an integer
  number of microseconds, handed to each operation that reads the clock.
\<close>

type_synonym timestamp = int

text \<open>
  The attribute \<open>_value\<close> exists or not (\<open>hasattr\<close>, \<open>del\<close>): \<open>d_value\<close> is \<open>None\<close> when
  the object has no such attribute and \<open>Some v\<close> when it has, also when \<open>v\<close> is
  Python's \<open>None\<close>.
\<close>

record 'v DelayedClear =
  d_value :: "'v option"
  d_value_set :: bool
  d_use_counter :: Counter
  d_last_release :: timestamp

definition hasattr_value :: "'v DelayedClear \<Rightarrow> bool" where
  "hasattr_value self = (d_value self \<noteq> None)"

text \<open>\<open>set\<close>: assigns \<open>_value\<close> and sets the event.\<close>

definition DelayedClear_set :: "'v DelayedClear \<Rightarrow> 'v \<Rightarrow> 'v DelayedClear" where
  "DelayedClear_set self v = (self\<lparr>d_value := Some v\<rparr>)\<lparr>d_value_set := True\<rparr>"

text \<open>
  \<open>__init__(self, value=None)\<close>: the argument is \<open>None\<close> here when the caller passes
  nothing, and the parameter then takes its default. The attributes are created in
  the order of the source; \<open>_use_counter\<close> and \<open>_last_release\<close> do not exist before
  their assignment, and nothing reads them before.
\<close>

definition DelayedClear_init :: "'a pyval option \<Rightarrow> timestamp \<Rightarrow> 'a pyval DelayedClear" where
  "DelayedClear_init arg now =
     (let v = (case arg of None \<Rightarrow> PyNone | Some x \<Rightarrow> x);
          s0 = \<lparr>d_value = None, d_value_set = False,
                d_use_counter = Counter_init, d_last_release = now\<rparr>;
          s1 = (if v \<noteq> PyNone then DelayedClear_set s0 v else s0);
          s2 = s1\<lparr>d_use_counter := Counter_init\<rparr>
      in s2\<lparr>d_last_release := now\<rparr>)"

definition unused :: "'v DelayedClear \<Rightarrow> bool" where
  "unused self = is_zero (d_use_counter self)"

text \<open>
  \<open>get\<close> is again a generator under \<open>contextmanager\<close>:
  \<^verbatim>\<open>
      if not hasattr(self, "_value"):
          self.set(or_set())
      try:
          with self._use_counter.bump():
              yield self._value
      finally:
          if self._use_counter.is_zero():
              self._last_release = datetime.now()
  \<close>
  The factory \<open>or_set\<close> is a computation on the world outside the slot: it takes the
  world \<open>w\<close> and gives either an exception or a value, and the world it leaves.

  \<open>get_finally\<close> is the \<open>finally\<close> clause, \<open>now\<close> being the clock reading there.
\<close>

definition get_finally :: "'v DelayedClear \<Rightarrow> timestamp \<Rightarrow> 'v DelayedClear" where
  "get_finally self now =
     (if is_zero (d_use_counter self) then self\<lparr>d_last_release := now\<rparr> else self)"

text \<open>
  Entering the \<open>with\<close> block runs the generator up to the \<open>yield\<close>. The factory is
  called before the \<open>try\<close>, so an exception of the factory leaves the generator with
  neither the counter nor the \<open>finally\<close> clause involved. The expression
  \<open>self._value\<close> is read inside the inner \<open>with\<close>, after the increment; were the
  attribute missing there, \<open>AttributeError\<close> would leave the inner \<open>with\<close> (whose
  generator does not decrement on an exception) and then the \<open>finally\<close> clause.

  The factory runs inside the frame of the generator, so its exception passes
  \<open>generator_raise\<close> on the way out; \<open>__enter__\<close> of \<open>contextmanager\<close> hands on
  whatever the generator raises. The caller of \<open>get\<close> therefore receives the
  exception of the factory itself unless that is \<open>StopIteration\<close> (a factory such as
  \<open>lambda: next(it)\<close> on an exhausted iterator), which arrives as \<open>RuntimeError\<close>.
\<close>

definition get_enter ::
  "'v DelayedClear \<Rightarrow> ('w \<Rightarrow> ('e exn + 'v) \<times> 'w) \<Rightarrow> 'w \<Rightarrow> timestamp
     \<Rightarrow> ('e exn + 'v) \<times> 'v DelayedClear \<times> 'w" where
  "get_enter self or_set w now =
     (case (if \<not> hasattr_value self
            then (case or_set w of
                    (Inl e, w1) \<Rightarrow> (Inl e, w1)
                  | (Inr v, w1) \<Rightarrow> (Inr (DelayedClear_set self v), w1))
            else (Inr self, w)) of
        (Inl e, w1) \<Rightarrow> (Inl (generator_raise e), self, w1)
      | (Inr s1, w1) \<Rightarrow>
          (let s2 = s1\<lparr>d_use_counter := bump_enter (d_use_counter s1)\<rparr>
           in (case d_value s2 of
                 Some v \<Rightarrow> (Inr v, s2, w1)
               | None \<Rightarrow>
                   (let s3 = s2\<lparr>d_use_counter := bump_exit (d_use_counter s2) (Some (AttributeError :: 'e exn))\<rparr>
                    in (Inl (generator_raise AttributeError), get_finally s3 now, w1)))))"

text \<open>
  Leaving the \<open>with\<close> block: the inner \<open>with\<close> is left first (with the exception of
  the block, if any), then the \<open>finally\<close> clause runs; an exception goes on to the
  caller afterwards. On this path the exception was thrown into the generator by
  \<open>__exit__\<close>, which raises the exception of the block again when the generator gives
  it back, also when it comes back as the \<open>RuntimeError\<close> whose cause is that very
  \<open>StopIteration\<close>: the exception of the block reaches the caller unchanged.
\<close>

definition get_exit :: "'v DelayedClear \<Rightarrow> 'e exn option \<Rightarrow> timestamp \<Rightarrow> 'v DelayedClear" where
  "get_exit self exc now =
     (let s1 = self\<lparr>d_use_counter := bump_exit (d_use_counter self) exc\<rparr>
      in get_finally s1 now)"

text \<open>
  The statement \<open>with slot.get(or_set) as v: body\<close>. The body receives the value
  yielded and works on the slot and the world; \<open>now\<close> is the clock reading at the
  \<open>finally\<close> clause, which runs at most once.
\<close>

definition get ::
  "'v DelayedClear \<Rightarrow> ('w \<Rightarrow> ('e exn + 'v) \<times> 'w)
     \<Rightarrow> ('v \<Rightarrow> 'v DelayedClear \<Rightarrow> 'w \<Rightarrow> ('e exn + 'r) \<times> 'v DelayedClear \<times> 'w)
     \<Rightarrow> 'w \<Rightarrow> timestamp \<Rightarrow> ('e exn + 'r) \<times> 'v DelayedClear \<times> 'w" where
  "get self or_set body w now =
     (case get_enter self or_set w now of
        (Inl e, s1, w1) \<Rightarrow> (Inl e, s1, w1)
      | (Inr v, s1, w1) \<Rightarrow>
          (case body v s1 w1 of
             (Inr r, s2, w2) \<Rightarrow> (Inr r, get_exit s2 (None :: 'e exn option) now, w2)
           | (Inl e, s2, w2) \<Rightarrow> (Inl e, get_exit s2 (Some e) now, w2)))"

text \<open>\<open>clear\<close>: the result and the slot afterwards.\<close>

definition DelayedClear_clear :: "'v DelayedClear \<Rightarrow> bool \<times> 'v DelayedClear" where
  "DelayedClear_clear self =
     (if unused self
      then (let s1 = (if hasattr_value self
                      then (self\<lparr>d_value := None\<rparr>)\<lparr>d_value_set := False\<rparr>
                      else self)
            in (True, s1))
      else (False, self))"

text \<open>
  The life of a slot: any finite sequence of calls after the constructor. A \<open>with\<close>
  block is two calls, its entry and its exit, so that calls of other blocks and of
  other tasks may fall in between in any order; an exit with no matching entry is
  allowed too, which only adds states.
\<close>

datatype ('e, 'v, 'w) dc_call =
    CallGetEnter "'w \<Rightarrow> ('e exn + 'v) \<times> 'w" timestamp
  | CallGetExit "'e exn option" timestamp
  | CallSet 'v
  | CallClear

fun dc_step :: "'v DelayedClear \<times> 'w \<Rightarrow> ('e, 'v, 'w) dc_call \<Rightarrow> 'v DelayedClear \<times> 'w" where
  "dc_step (s, w) (CallGetEnter or_set now) = snd (get_enter s or_set w now)"
| "dc_step (s, w) (CallGetExit exc now) = (get_exit s exc now, w)"
| "dc_step (s, w) (CallSet v) = (DelayedClear_set s v, w)"
| "dc_step (s, w) CallClear = (snd (DelayedClear_clear s), w)"

definition dc_run ::
  "'a pyval option \<Rightarrow> timestamp \<Rightarrow> 'w \<Rightarrow> ('e, 'a pyval, 'w) dc_call list
     \<Rightarrow> 'a pyval DelayedClear \<times> 'w" where
  "dc_run arg t0 w0 calls = foldl dc_step (DelayedClear_init arg t0, w0) calls"

text \<open>
  What every call keeps: the event mirrors the attribute, the counter is sound, and
  a positive count comes with a value.
\<close>

definition dc_inv :: "'v DelayedClear \<Rightarrow> bool" where
  "dc_inv s =
     (d_value_set s = (d_value s \<noteq> None) \<and> counter_inv (d_use_counter s) \<and>
      (0 < c_counter (d_use_counter s) \<longrightarrow> d_value s \<noteq> None))"

section \<open>Properties of the counter\<close>


lemma counter_inv_init: "counter_inv Counter_init"
  by (simp add: counter_inv_def Counter_init_def)

lemma counter_inv_increment: "counter_inv c \<Longrightarrow> counter_inv (increment c)"
  by (simp add: counter_inv_def increment_def Let_def)

lemma counter_inv_decrement: "counter_inv c \<Longrightarrow> counter_inv (decrement c)"
  by (auto simp add: counter_inv_def decrement_def Let_def)

lemma counter_inv_clear: "counter_inv (Counter_clear c)"
  by (simp add: counter_inv_def Counter_clear_def)

lemma counter_inv_step: "counter_inv c \<Longrightarrow> counter_inv (counter_step c x)"
  by (cases x) (simp_all add: counter_inv_increment counter_inv_decrement counter_inv_clear)

lemma counter_inv_foldl: "counter_inv c \<Longrightarrow> counter_inv (foldl counter_step c ops)"
  by (induction ops arbitrary: c) (simp_all add: counter_inv_step)

lemma counter_inv_run: "counter_inv (counter_run ops)"
  unfolding counter_run_def by (rule counter_inv_foldl [OF counter_inv_init])

lemma decrement_at_zero: "c_counter c = 0 \<Longrightarrow> decrement c = c\<lparr>c_zero := True\<rparr>"
  by (simp add: decrement_def Let_def)

lemma decrement_pos: "0 < c_counter (decrement c) \<Longrightarrow> 0 < c_counter c"
  by (auto simp add: decrement_def Let_def split: if_splits)

text \<open>
  A block that returns normally and leaves the count as it found it: the count after
  the \<open>with\<close> statement is the count before.
\<close>

lemma bump_normal_body:
  assumes "0 \<le> c_counter c" and "body (increment c) = (Inr r, c')"
    and "c_counter c' = c_counter (increment c)"
  shows "fst (bump c body) = Inr r \<and> c_counter (snd (bump c body)) = c_counter c"
  using assms by (simp add: bump_def bump_enter_def bump_exit_def increment_def decrement_def Let_def)

text \<open>
  Claim C1 (for every block run under \<open>bump\<close>, also one that raises, \<open>decrement\<close> is
  called on exit and the count after equals the count before). The code at a block
  that raises: on a fresh counter the statement \<open>with c.bump(): raise ValueError\<close>
  passes the exception on and leaves the count at 1 with the event not set; the
  \<open>decrement\<close> after the \<open>yield\<close> is never reached.
\<close>

theorem bump_raising_body_leaks:
  "bump Counter_init (\<lambda>c. (Inl ''ValueError'' :: string + unit, c))
     = (Inl ''ValueError'', \<lparr>c_counter = 1, c_zero = False\<rparr>)"
  by (simp add: bump_def bump_enter_def bump_exit_def increment_def Counter_init_def Let_def)

text \<open>
  Claim C5: after any sequence of \<open>increment\<close>, \<open>decrement\<close> and \<open>clear\<close> calls on a
  fresh counter the count is not negative; \<open>decrement\<close> at count 0 leaves the count
  at 0, and on a counter reached by such a sequence it changes nothing at all. The
  method has no \<open>raise\<close>, and the model accordingly no error result.
\<close>

theorem counter_never_negative:
  "0 \<le> c_counter (counter_run ops) \<and>
   (c_counter c = 0 \<longrightarrow> c_counter (decrement c) = 0) \<and>
   (c_counter (counter_run ops) = 0 \<longrightarrow> decrement (counter_run ops) = counter_run ops)"
proof -
  have inv: "counter_inv (counter_run ops)" by (rule counter_inv_run)
  then have nonneg: "0 \<le> c_counter (counter_run ops)" by (simp add: counter_inv_def)
  have at0: "c_counter c = 0 \<longrightarrow> c_counter (decrement c) = 0"
    by (simp add: decrement_def Let_def)
  have noop: "c_counter (counter_run ops) = 0 \<longrightarrow> decrement (counter_run ops) = counter_run ops"
    using inv by (simp add: decrement_at_zero counter_inv_def)
  from nonneg at0 noop show ?thesis by simp
qed

theorem counter_never_negative_witness:
  "0 \<le> c_counter (counter_run [Increment, Decrement, Decrement, Clear, Decrement]) \<and>
   c_counter Counter_init = 0 \<and> c_counter (decrement Counter_init) = 0 \<and>
   c_counter (counter_run [Increment, Decrement, Decrement, Clear, Decrement]) = 0 \<and>
   decrement (counter_run [Increment, Decrement, Decrement, Clear, Decrement])
     = counter_run [Increment, Decrement, Decrement, Clear, Decrement]"
  using counter_never_negative [of "[Increment, Decrement, Decrement, Clear, Decrement]" Counter_init]
  by (simp add: counter_run_def Counter_init_def increment_def decrement_def Counter_clear_def Let_def)

text \<open>
  Claim C6: after the constructor (the empty sequence) and after every call of
  \<open>increment\<close>, \<open>decrement\<close> or \<open>clear\<close>, the event \<open>_zero\<close> is set exactly when the
  count is 0, and \<open>is_zero\<close> agrees with the event.
\<close>

theorem counter_zero_event_iff:
  "c_zero (counter_run ops) = (c_counter (counter_run ops) = 0) \<and>
   is_zero (counter_run ops) = c_zero (counter_run ops)"
  using counter_inv_run [of ops] by (simp add: counter_inv_def is_zero_def)

section \<open>Properties of the slot\<close>

lemma dc_inv_init: "dc_inv (DelayedClear_init arg t)"
  by (cases arg) (auto simp add: dc_inv_def DelayedClear_init_def DelayedClear_set_def counter_inv_def Counter_init_def Let_def)

lemma dc_inv_set: "dc_inv s \<Longrightarrow> dc_inv (DelayedClear_set s v)"
  by (simp add: dc_inv_def DelayedClear_set_def)

lemma dc_inv_clear: "dc_inv s \<Longrightarrow> dc_inv (snd (DelayedClear_clear s))"
  by (auto simp add: dc_inv_def DelayedClear_clear_def unused_def is_zero_def hasattr_value_def Let_def)

lemma dc_inv_finally: "dc_inv s \<Longrightarrow> dc_inv (get_finally s now)"
  by (simp add: dc_inv_def get_finally_def)

lemma dc_inv_bump_enter:
  "dc_inv s \<Longrightarrow> d_value s \<noteq> None \<Longrightarrow> dc_inv (s\<lparr>d_use_counter := bump_enter (d_use_counter s)\<rparr>)"
  by (simp add: dc_inv_def bump_enter_def counter_inv_increment)

lemma dc_inv_bump_exit:
  "dc_inv s \<Longrightarrow> dc_inv (s\<lparr>d_use_counter := bump_exit (d_use_counter s) exc\<rparr>)"
  by (cases exc) (auto simp add: dc_inv_def bump_exit_def counter_inv_decrement dest: decrement_pos)

lemma dc_inv_get_exit: "dc_inv s \<Longrightarrow> dc_inv (get_exit s exc now)"
  by (simp add: get_exit_def Let_def dc_inv_finally dc_inv_bump_exit)

lemma dc_inv_get_enter: 
  assumes "dc_inv s" shows "dc_inv (fst (snd (get_enter s or_set w now)))"
proof (cases "d_value s")
  case None
  show ?thesis
  proof (cases "or_set w")
    case (Pair r w1)
    show ?thesis
    proof (cases r)
      case (Inl e)
      with None Pair assms show ?thesis by (simp add: get_enter_def hasattr_value_def)
    next
      case (Inr v)
      have "dc_inv ((DelayedClear_set s v)\<lparr>d_use_counter := bump_enter (d_use_counter (DelayedClear_set s v))\<rparr>)"
        by (rule dc_inv_bump_enter) (simp_all add: dc_inv_set assms, simp add: DelayedClear_set_def)
      with None Pair Inr show ?thesis
        by (simp add: get_enter_def hasattr_value_def Let_def DelayedClear_set_def)
    qed
  qed
next
  case (Some v)
  have "dc_inv (s\<lparr>d_use_counter := bump_enter (d_use_counter s)\<rparr>)"
    by (rule dc_inv_bump_enter) (simp_all add: assms Some)
  with Some show ?thesis
    by (simp add: get_enter_def hasattr_value_def Let_def)
qed

lemma dc_inv_step: "dc_inv (fst st) \<Longrightarrow> dc_inv (fst (dc_step st c))"
proof (cases st)
  case (Pair s w)
  assume "dc_inv (fst st)"
  with Pair have inv: "dc_inv s" by simp
  show ?thesis
  proof (cases c)
    case (CallGetEnter f now)
    with Pair dc_inv_get_enter [OF inv, of f w now] show ?thesis by simp
  next
    case (CallGetExit exc now)
    with Pair inv show ?thesis by (simp add: dc_inv_get_exit)
  next
    case (CallSet v)
    with Pair inv show ?thesis by (simp add: dc_inv_set)
  next
    case CallClear
    with Pair inv show ?thesis by (simp add: dc_inv_clear)
  qed
qed

lemma dc_inv_foldl: "dc_inv (fst st) \<Longrightarrow> dc_inv (fst (foldl dc_step st calls))"
  by (induction calls arbitrary: st) (simp_all add: dc_inv_step)

lemma dc_inv_run: "dc_inv (fst (dc_run arg t0 w0 calls))"
  unfolding dc_run_def by (rule dc_inv_foldl) (simp add: dc_inv_init)

text \<open>The definitions a concrete run unfolds to.\<close>

lemmas eval_defs = dc_run_def DelayedClear_init_def DelayedClear_set_def DelayedClear_clear_def
  get_enter_def get_exit_def get_finally_def get_def hasattr_value_def unused_def is_zero_def
  generator_raise_def
  bump_enter_def bump_exit_def increment_def decrement_def Counter_init_def Let_def

text \<open>
  The same through the slot: a block under \<open>get\<close> that raises leaves the count of
  the slot at 1, and \<open>clear\<close> is refused from then on; a block that returns leaves
  the count at 0 and records the release.
\<close>

lemma get_raising_body_leaks:
  "get (DelayedClear_init (Some (PyObj (7::nat))) 0) or_set
       (\<lambda>v s w. (Inl (Raised ''boom'') :: string exn + unit, s, w)) w 9
     = (Inl (Raised ''boom''),
        \<lparr>d_value = Some (PyObj 7), d_value_set = True,
          d_use_counter = \<lparr>c_counter = 1, c_zero = False\<rparr>, d_last_release = 0\<rparr>, w) \<and>
   fst (DelayedClear_clear
        \<lparr>d_value = Some (PyObj (7::nat)), d_value_set = True,
          d_use_counter = \<lparr>c_counter = 1, c_zero = False\<rparr>, d_last_release = 0\<rparr>) = False"
  by (simp add: eval_defs)

lemma get_normal_body_releases:
  "get (DelayedClear_init (Some (PyObj (7::nat))) 0) (or_set :: 'w \<Rightarrow> (string exn + nat pyval) \<times> 'w)
       (\<lambda>v s w. (Inr v, s, w)) w 9
     = (Inr (PyObj 7),
        \<lparr>d_value = Some (PyObj 7), d_value_set = True,
          d_use_counter = \<lparr>c_counter = 0, c_zero = True\<rparr>, d_last_release = 9\<rparr>, w)"
  by (simp add: eval_defs)

text \<open>
  Claim C2 (when the factory raises during \<open>get\<close>, the exception propagates to the
  caller, the slot stays without a value and with its event not set, and the counter
  is not incremented), at a factory that raises \<open>StopIteration\<close> on a fresh slot: the
  caller does not receive that exception but \<open>RuntimeError\<close>; the slot is as before.
\<close>

theorem get_factory_stop_iteration_counterexample:
  "get_enter (DelayedClear_init (None :: nat pyval option) 0)
       (Pair (Inl (StopIteration :: string exn))) (0::nat) 9
     = (Inl RuntimeError, DelayedClear_init None 0, 0) \<and>
   fst (get_enter (DelayedClear_init (None :: nat pyval option) 0)
       (Pair (Inl (StopIteration :: string exn))) (0::nat) 9) \<noteq> Inl StopIteration"
  by (simp add: eval_defs)

text \<open>
  Claim C2, amended: when the factory raises during \<open>get\<close> (which calls it only when
  no value is stored), an exception reaches the caller: that of the factory, or
  \<open>RuntimeError\<close> when the factory raised \<open>StopIteration\<close>. The slot is exactly as
  before, so it still has no value and its event is not set, and the counter was not
  incremented. The slot is any slot reached from the constructor, and the factory
  is one that works on the world outside the slot and calls none of the slot's
  methods. The block of the \<open>with\<close> statement is not run, and neither is the
  \<open>finally\<close> clause.
\<close>

theorem get_factory_failure:
  assumes "dc_run arg t0 w0 calls = (s, w)" and "d_value s = None" and "or_set w = (Inl e, w1)"
  shows "get_enter s or_set w now
           = (Inl (if e = StopIteration then RuntimeError else e), s, w1) \<and>
         get s or_set body w now
           = (Inl (if e = StopIteration then RuntimeError else e), s, w1) \<and>
         d_value s = None \<and> \<not> d_value_set s"
proof -
  have enter: "get_enter s or_set w now
                 = (Inl (if e = StopIteration then RuntimeError else e), s, w1)"
    using assms(2,3) by (simp add: get_enter_def hasattr_value_def generator_raise_def)
  then have whole: "get s or_set body w now
                      = (Inl (if e = StopIteration then RuntimeError else e), s, w1)"
    by (simp add: get_def)
  have "dc_inv (fst (dc_run arg t0 w0 calls))" by (rule dc_inv_run)
  with assms(1) have "dc_inv s" by simp
  with assms(2) have "\<not> d_value_set s" by (simp add: dc_inv_def)
  with enter whole assms(2) show ?thesis by simp
qed

theorem get_factory_failure_witness:
  "dc_run None 0 (0::nat) [CallSet (PyObj (7::nat)), CallClear :: (string, nat pyval, nat) dc_call]
     = (\<lparr>d_value = None, d_value_set = False,
         d_use_counter = \<lparr>c_counter = 0, c_zero = True\<rparr>, d_last_release = 0\<rparr>, 0) \<and>
   d_value \<lparr>d_value = None :: nat pyval option, d_value_set = False,
         d_use_counter = \<lparr>c_counter = 0, c_zero = True\<rparr>, d_last_release = 0\<rparr> = None \<and>
   (\<lambda>n. (Inl (Raised ''boom'') :: string exn + nat pyval, Suc n)) (0::nat)
     = (Inl (Raised ''boom''), Suc 0) \<and>
   get_enter \<lparr>d_value = None, d_value_set = False,
         d_use_counter = \<lparr>c_counter = 0, c_zero = True\<rparr>, d_last_release = 0\<rparr>
       (\<lambda>n. (Inl (Raised ''boom''), Suc n)) (0::nat) 9
     = (Inl (Raised ''boom''), \<lparr>d_value = None :: nat pyval option, d_value_set = False,
         d_use_counter = \<lparr>c_counter = 0, c_zero = True\<rparr>, d_last_release = 0\<rparr>, Suc 0)"
  using get_factory_failure [of None 0 "0::nat"
      "[CallSet (PyObj (7::nat)), CallClear :: (string, nat pyval, nat) dc_call]"
      "\<lparr>d_value = None, d_value_set = False,
         d_use_counter = \<lparr>c_counter = 0, c_zero = True\<rparr>, d_last_release = 0\<rparr>" 0
      "\<lambda>n. (Inl (Raised ''boom''), Suc n)" "Raised ''boom''" "Suc 0" 9]
  by (simp add: eval_defs)

text \<open>
  Claim C3: in every slot state whose count is positive \<open>clear\<close> returns \<open>False\<close> and
  the slot afterwards is the slot before, field for field (value, event, counter,
  time of last release). In every such state reached from the constructor the value
  is present and its event set, so the value stays present and unchanged.
\<close>

theorem clear_refused_while_in_use:
  assumes "0 < c_counter (d_use_counter s)"
  shows "DelayedClear_clear s = (False, s) \<and>
         (dc_run arg t0 w0 calls = (s, w) \<longrightarrow> d_value s \<noteq> None \<and> d_value_set s)"
proof -
  have refused: "DelayedClear_clear s = (False, s)"
    using assms by (simp add: DelayedClear_clear_def unused_def is_zero_def)
  have present: "d_value s \<noteq> None \<and> d_value_set s" if run: "dc_run arg t0 w0 calls = (s, w)"
  proof -
    have "dc_inv (fst (dc_run arg t0 w0 calls))" by (rule dc_inv_run)
    with run have "dc_inv s" by simp
    with assms show ?thesis by (simp add: dc_inv_def)
  qed
  from refused present show ?thesis by blast
qed

theorem clear_refused_while_in_use_witness:
  "(0::int) < c_counter (d_use_counter
      \<lparr>d_value = Some (PyObj (7::nat)), d_value_set = True,
        d_use_counter = \<lparr>c_counter = 1, c_zero = False\<rparr>, d_last_release = 0\<rparr>) \<and>
   dc_run None 0 (0::nat)
      [CallGetEnter (\<lambda>n. (Inr (PyObj (7::nat)), Suc n)) 3 :: (string, nat pyval, nat) dc_call]
     = (\<lparr>d_value = Some (PyObj 7), d_value_set = True,
         d_use_counter = \<lparr>c_counter = 1, c_zero = False\<rparr>, d_last_release = 0\<rparr>, Suc 0) \<and>
   DelayedClear_clear
      \<lparr>d_value = Some (PyObj (7::nat)), d_value_set = True,
        d_use_counter = \<lparr>c_counter = 1, c_zero = False\<rparr>, d_last_release = 0\<rparr>
     = (False, \<lparr>d_value = Some (PyObj 7), d_value_set = True,
         d_use_counter = \<lparr>c_counter = 1, c_zero = False\<rparr>, d_last_release = 0\<rparr>)"
  using clear_refused_while_in_use [of
      "\<lparr>d_value = Some (PyObj (7::nat)), d_value_set = True,
        d_use_counter = \<lparr>c_counter = 1, c_zero = False\<rparr>, d_last_release = 0\<rparr>"
      None 0 "0::nat"
      "[CallGetEnter (\<lambda>n. (Inr (PyObj (7::nat)), Suc n)) 3 :: (string, nat pyval, nat) dc_call]"
      "Suc 0"]
  by (simp add: eval_defs)

text \<open>
  Claim C4: in every slot state reached from the constructor in which \<open>unused()\<close>
  holds, \<open>clear\<close> returns \<open>True\<close> and leaves the slot with no value and its event not
  set, whether or not there was a value; a second \<open>clear\<close> returns \<open>True\<close> again and
  changes nothing.
\<close>

theorem clear_when_unused:
  assumes "dc_run arg t0 w0 calls = (s, w)" and "unused s"
  shows "fst (DelayedClear_clear s) = True \<and>
         d_value (snd (DelayedClear_clear s)) = None \<and>
         \<not> d_value_set (snd (DelayedClear_clear s)) \<and>
         DelayedClear_clear (snd (DelayedClear_clear s)) = (True, snd (DelayedClear_clear s))"
proof -
  have "dc_inv (fst (dc_run arg t0 w0 calls))" by (rule dc_inv_run)
  with assms(1) have "dc_inv s" by simp
  then have ev: "d_value_set s = (d_value s \<noteq> None)" by (simp add: dc_inv_def)
  show ?thesis
  proof (cases "d_value s")
    case None
    with ev assms(2) show ?thesis
      by (simp add: DelayedClear_clear_def hasattr_value_def unused_def)
  next
    case (Some v)
    with assms(2) show ?thesis
      by (simp add: DelayedClear_clear_def hasattr_value_def unused_def)
  qed
qed

theorem clear_when_unused_witness:
  "dc_run (Some (PyObj (7::nat))) 0 (0::nat)
      [CallGetEnter (\<lambda>n. (Inr (PyObj (8::nat)), Suc n)) 3 :: (string, nat pyval, nat) dc_call,
       CallGetExit None 5]
     = (\<lparr>d_value = Some (PyObj 7), d_value_set = True,
         d_use_counter = \<lparr>c_counter = 0, c_zero = True\<rparr>, d_last_release = 5\<rparr>, 0) \<and>
   unused \<lparr>d_value = Some (PyObj (7::nat)), d_value_set = True,
         d_use_counter = \<lparr>c_counter = 0, c_zero = True\<rparr>, d_last_release = 5\<rparr> \<and>
   DelayedClear_clear \<lparr>d_value = Some (PyObj (7::nat)), d_value_set = True,
         d_use_counter = \<lparr>c_counter = 0, c_zero = True\<rparr>, d_last_release = 5\<rparr>
     = (True, \<lparr>d_value = None, d_value_set = False,
         d_use_counter = \<lparr>c_counter = 0, c_zero = True\<rparr>, d_last_release = 5\<rparr>)"
  using clear_when_unused [of "Some (PyObj (7::nat))" 0 "0::nat"
      "[CallGetEnter (\<lambda>n. (Inr (PyObj (8::nat)), Suc n)) 3 :: (string, nat pyval, nat) dc_call,
        CallGetExit None 5]"
      "\<lparr>d_value = Some (PyObj (7::nat)), d_value_set = True,
         d_use_counter = \<lparr>c_counter = 0, c_zero = True\<rparr>, d_last_release = 5\<rparr>" 0]
  by (simp add: eval_defs)

text \<open>
  Claim C7: after the constructor and after every call of \<open>get\<close> (its entry and its
  exit), \<open>set\<close> and \<open>clear\<close>, in any order, the event \<open>_value_set\<close> is set exactly
  when the attribute \<open>_value\<close> exists.
\<close>

theorem value_set_event_iff:
  "d_value_set (fst (dc_run arg t0 w0 calls)) = (d_value (fst (dc_run arg t0 w0 calls)) \<noteq> None)"
  using dc_inv_run [of arg t0 w0 calls] by (simp add: dc_inv_def)

text \<open>
  Claim C8: entering \<open>get\<close> with a value stored yields that value and leaves the
  world untouched, whatever the factory is: the factory is not called. Entering it
  with no value stored, the factory returning \<open>v\<close>, leaves the world as one call of
  the factory leaves it, stores \<open>v\<close> as \<open>set\<close> does, and yields \<open>v\<close>. In both cases
  the counter is incremented. The statement holds for every factory, one that counts
  its calls in the world included, so the factory runs exactly once.
\<close>

theorem get_calls_factory_only_when_absent:
  "(d_value s = Some v \<longrightarrow>
      get_enter s or_set w now
        = (Inr v, s\<lparr>d_use_counter := increment (d_use_counter s)\<rparr>, w)) \<and>
   (d_value s = None \<and> or_set w = (Inr v, w1) \<longrightarrow>
      get_enter s or_set w now
        = (Inr v, (DelayedClear_set s v)\<lparr>d_use_counter := increment (d_use_counter s)\<rparr>, w1))"
  by (simp add: get_enter_def hasattr_value_def bump_enter_def DelayedClear_set_def Let_def)

theorem get_calls_factory_only_when_absent_witness:
  "d_value \<lparr>d_value = Some (PyObj (7::nat)), d_value_set = True,
        d_use_counter = \<lparr>c_counter = 0, c_zero = True\<rparr>, d_last_release = 0\<rparr> = Some (PyObj 7) \<and>
   get_enter \<lparr>d_value = Some (PyObj (7::nat)), d_value_set = True,
        d_use_counter = \<lparr>c_counter = 0, c_zero = True\<rparr>, d_last_release = 0\<rparr>
      (\<lambda>n. (Inr (PyObj 8) :: string exn + nat pyval, Suc n)) (0::nat) 3
     = (Inr (PyObj 7), \<lparr>d_value = Some (PyObj 7), d_value_set = True,
        d_use_counter = \<lparr>c_counter = 1, c_zero = False\<rparr>, d_last_release = 0\<rparr>, 0) \<and>
   d_value \<lparr>d_value = None :: nat pyval option, d_value_set = False,
        d_use_counter = \<lparr>c_counter = 0, c_zero = True\<rparr>, d_last_release = 0\<rparr> = None \<and>
   (\<lambda>n. (Inr (PyObj 8) :: string exn + nat pyval, Suc n)) (0::nat) = (Inr (PyObj 8), Suc 0) \<and>
   get_enter \<lparr>d_value = None, d_value_set = False,
        d_use_counter = \<lparr>c_counter = 0, c_zero = True\<rparr>, d_last_release = 0\<rparr>
      (\<lambda>n. (Inr (PyObj 8) :: string exn + nat pyval, Suc n)) (0::nat) 3
     = (Inr (PyObj 8), \<lparr>d_value = Some (PyObj 8), d_value_set = True,
        d_use_counter = \<lparr>c_counter = 1, c_zero = False\<rparr>, d_last_release = 0\<rparr>, Suc 0)"
  using get_calls_factory_only_when_absent [of
      "\<lparr>d_value = Some (PyObj (7::nat)), d_value_set = True,
        d_use_counter = \<lparr>c_counter = 0, c_zero = True\<rparr>, d_last_release = 0\<rparr>" "PyObj 7"
      "\<lambda>n. (Inr (PyObj 8) :: string exn + nat pyval, Suc n)" "0::nat" 3 "Suc 0"]
    get_calls_factory_only_when_absent [of
      "\<lparr>d_value = None :: nat pyval option, d_value_set = False,
        d_use_counter = \<lparr>c_counter = 0, c_zero = True\<rparr>, d_last_release = 0\<rparr>" "PyObj 8"
      "\<lambda>n. (Inr (PyObj 8) :: string exn + nat pyval, Suc n)" "0::nat" 3 "Suc 0"]
  by (simp add: eval_defs)

text \<open>
  Claim C9: for every slot state and every argument, \<open>set\<close> stores the argument,
  sets the event, and leaves the counter (its count and its event) and the time of
  the last release as they were.
\<close>

theorem set_stores_value_only:
  "d_value (DelayedClear_set s v) = Some v \<and>
   d_value_set (DelayedClear_set s v) \<and>
   d_use_counter (DelayedClear_set s v) = d_use_counter s \<and>
   c_counter (d_use_counter (DelayedClear_set s v)) = c_counter (d_use_counter s) \<and>
   c_zero (d_use_counter (DelayedClear_set s v)) = c_zero (d_use_counter s) \<and>
   d_last_release (DelayedClear_set s v) = d_last_release s"
  by (simp add: DelayedClear_set_def)

text \<open>
  Claim C10: the constructor called with \<open>None\<close> gives the same slot as the
  constructor called with no argument: no value and the event not set. A later
  \<open>set(None)\<close> on that slot stores \<open>None\<close> as its value and sets the event.
\<close>

theorem init_none_is_absent:
  "DelayedClear_init (Some PyNone) t0 = DelayedClear_init None t0 \<and>
   d_value (DelayedClear_init (Some PyNone) t0) = None \<and>
   \<not> d_value_set (DelayedClear_init (Some PyNone) t0) \<and>
   d_value (DelayedClear_set (DelayedClear_init (Some PyNone) t0) PyNone) = Some PyNone \<and>
   d_value_set (DelayedClear_set (DelayedClear_init (Some PyNone) t0) PyNone) \<and>
   hasattr_value (DelayedClear_set (DelayedClear_init (Some PyNone) t0) PyNone)"
  by (simp add: DelayedClear_init_def DelayedClear_set_def hasattr_value_def Let_def)

end
